theory Spec2Isabelle
  imports Main "HOL-Library.Word"
begin

section \<open>C values and C library functions used by the examples\<close>

text \<open>
  A C \<^verbatim>\<open>int\<close> is a \<open>32 word\<close>. A \<^verbatim>\<open>char *\<close> is \<open>NULL\<close> or points to a string.
  A variable that the examples' \<^verbatim>\<open>main\<close> declares without an initialiser holds
  \<open>None\<close> until something is stored in it.

  The examples call \<^verbatim>\<open>atoi\<close> and \<^verbatim>\<open>getopt_long\<close> of the C library. They are
  not part of the repository; they are modelled here from their documented behaviour
  (\<^verbatim>\<open>atoi(3)\<close>, \<^verbatim>\<open>getopt(3)\<close> of the GNU C library).
\<close>

type_synonym c_int = "32 word"

datatype c_str = NULL | Str string

text \<open>How a run ends when \<^verbatim>\<open>populate_args\<close> or \<^verbatim>\<open>parse_args\<close> does not return:
  \<^item> \<open>Usage_exit n\<close>: \<^verbatim>\<open>usage(argv[0]); exit(n);\<close> (the text printed is not modelled);
  \<^item> \<open>Null_argv i\<close>: \<^verbatim>\<open>argv[i]\<close> was \<^verbatim>\<open>NULL\<close> and was dereferenced;
  \<^item> \<open>Null_optarg\<close>: \<^verbatim>\<open>optarg\<close> was \<^verbatim>\<open>NULL\<close> and was dereferenced.\<close>

datatype halt = Usage_exit int | Null_argv nat | Null_optarg

definition isspace :: "char \<Rightarrow> bool" where
  "isspace c \<longleftrightarrow> c \<in> {CHR '' '', CHR 0x09, CHR 0x0A, CHR 0x0B, CHR 0x0C, CHR 0x0D}"

definition isdigit :: "char \<Rightarrow> bool" where
  "isdigit c \<longleftrightarrow> (48::nat) \<le> of_char c \<and> of_char c \<le> (57::nat)"

text \<open>The decimal digits at the front of a string, accumulated left to right.\<close>

fun atoi_digits :: "int \<Rightarrow> string \<Rightarrow> int" where
  "atoi_digits acc [] = acc"
| "atoi_digits acc (c # cs) =
     (if isdigit c then atoi_digits (acc * 10 + (of_char c - 48)) cs else acc)"

text \<open>
  \<^verbatim>\<open>atoi(s)\<close> is \<^verbatim>\<open>(int) strtol(s, NULL, 10)\<close>: skip white space, read an optional sign
  and the decimal digits that follow; 0 when there is no digit. \<^verbatim>\<open>strtol\<close> saturates
  at \<^verbatim>\<open>LONG_MAX\<close> and \<^verbatim>\<open>LONG_MIN\<close> (a 64-bit \<^verbatim>\<open>long\<close>); the conversion to \<^verbatim>\<open>int\<close>
  keeps the low 32 bits.
\<close>

definition strtol_saturate :: "int \<Rightarrow> int" where
  "strtol_saturate n = max (- (2 ^ 63)) (min (2 ^ 63 - 1) n)"

definition atoi :: "string \<Rightarrow> c_int" where
  "atoi nptr =
     (case dropWhile isspace nptr of
        [] \<Rightarrow> 0
      | c # cs \<Rightarrow>
          if c = CHR ''-'' then word_of_int (strtol_saturate (- atoi_digits 0 cs))
          else if c = CHR ''+'' then word_of_int (strtol_saturate (atoi_digits 0 cs))
          else word_of_int (strtol_saturate (atoi_digits 0 (c # cs))))"

text \<open>
  The array \<^verbatim>\<open>argv\<close> has \<^verbatim>\<open>argc + 1\<close> elements, the last one \<^verbatim>\<open>NULL\<close>. The model
  keeps the \<^verbatim>\<open>argc\<close> strings in a list; \<open>argv_at\<close> reads \<^verbatim>\<open>argv[i]\<close> for
  \<open>i \<le> argc\<close> and gives \<open>NULL\<close> at \<open>i = argc\<close>.
\<close>

definition argv_at :: "string list \<Rightarrow> nat \<Rightarrow> c_str" where
  "argv_at argv i = (if i < length argv then Str (argv ! i) else NULL)"

text \<open>\<^verbatim>\<open>s[i]\<close> of a C string, for \<open>i\<close> up to its length: the terminating NUL at the end.\<close>

definition char_at :: "string \<Rightarrow> nat \<Rightarrow> char" where
  "char_at s i = (if i < length s then s ! i else CHR 0x00)"

text \<open>\<^verbatim>\<open>strchr(s, c)\<close> for a character \<open>c\<close> other than NUL: the rest of \<open>s\<close> from the
  first \<open>c\<close> on, \<open>None\<close> (\<^verbatim>\<open>NULL\<close>) when \<open>c\<close> does not occur.\<close>

definition strchr :: "string \<Rightarrow> char \<Rightarrow> string option" where
  "strchr s c = (case dropWhile (\<lambda>x. x \<noteq> c) s of [] \<Rightarrow> None | t # ts \<Rightarrow> Some (t # ts))"

subsection \<open>getopt\_long\<close>

text \<open>\<^verbatim>\<open>struct option\<close>. Every entry of the examples' tables has \<^verbatim>\<open>flag\<close> 0, so
  \<^verbatim>\<open>getopt_long\<close> returns \<^verbatim>\<open>val\<close>; the field \<^verbatim>\<open>flag\<close> is left out. The list ends
  where the table has its all-zero entry.\<close>

record option_rec =
  name :: string
  has_arg :: nat
  val :: int

definition no_argument :: nat where
  "no_argument = 0"

definition required_argument :: nat where
  "required_argument = 1"

text \<open>
  The state of the scan that \<^verbatim>\<open>getopt_long\<close> keeps between calls.
  In its default mode \<^verbatim>\<open>getopt_long\<close> permutes \<^verbatim>\<open>argv\<close> as it scans, so that the
  elements taken as options (and as their arguments) come first and the non-options
  follow in their original order. The model keeps the three parts apart:
  \<^item> \<open>scanned\<close>: the elements taken as options or option arguments, and a \<^verbatim>\<open>--\<close>,
    in order: \<^verbatim>\<open>argv[1 .. optind-1]\<close> when the scan ends;
  \<^item> \<open>nonopts\<close>: the non-option elements passed over so far;
  \<^item> \<open>unscanned\<close>: the elements not looked at yet;
  \<^item> \<open>nextchar\<close>: what is left of the group of short options being read
    (\<open>[]\<close> when a new element is due);
  \<^item> \<open>optarg\<close>: the variable \<^verbatim>\<open>optarg\<close>.
\<close>

record getopt_data =
  scanned :: "string list"
  nonopts :: "string list"
  unscanned :: "string list"
  nextchar :: string
  optarg :: c_str

definition getopt_init :: "string list \<Rightarrow> getopt_data" where
  "getopt_init argv =
     \<lparr>scanned = [], nonopts = [], unscanned = drop 1 argv, nextchar = [], optarg = NULL\<rparr>"

text \<open>\<^verbatim>\<open>optind\<close> and the permuted \<^verbatim>\<open>argv\<close> as the caller sees them when
  \<^verbatim>\<open>getopt_long\<close> has returned -1. \<^verbatim>\<open>optind\<close> starts at 1, also when \<^verbatim>\<open>argc\<close> is 0.\<close>

definition optind :: "getopt_data \<Rightarrow> nat" where
  "optind d = 1 + length (scanned d)"

definition argv_permuted :: "string list \<Rightarrow> getopt_data \<Rightarrow> string list" where
  "argv_permuted argv d = take 1 argv @ scanned d @ nonopts d @ unscanned d"

text \<open>\<^verbatim>\<open>NONOPTION_P\<close>: the element does not start with \<^verbatim>\<open>-\<close>, or is \<^verbatim>\<open>-\<close> alone.\<close>

definition NONOPTION_P :: "string \<Rightarrow> bool" where
  "NONOPTION_P a \<longleftrightarrow> char_at a 0 \<noteq> CHR ''-'' \<or> char_at a 1 = CHR 0x00"

text \<open>
  The next short option character \<open>c\<close>, with \<open>cs\<close> the rest of its group.
  An unknown character gives \<^verbatim>\<open>'?'\<close> (63). A character followed by \<^verbatim>\<open>:\<close> in
  \<open>optstring\<close> takes the rest of the group as its argument, or else the next
  element; with no next element the result is \<^verbatim>\<open>'?'\<close> (\<^verbatim>\<open>':'\<close>, 58, when
  \<open>optstring\<close> starts with a colon). Followed by \<^verbatim>\<open>::\<close> the argument is optional and
  only taken from the group. (The \<^verbatim>\<open>W;\<close> extension is not modelled.)
\<close>

definition short_option :: "string \<Rightarrow> char \<Rightarrow> string \<Rightarrow> getopt_data \<Rightarrow> int \<times> getopt_data" where
  "short_option optstring c cs d =
     (case strchr optstring c of
        None \<Rightarrow> (63, d\<lparr>nextchar := cs\<rparr>)
      | Some temp \<Rightarrow>
          if c = CHR '':'' \<or> c = CHR '';'' then (63, d\<lparr>nextchar := cs\<rparr>)
          else if char_at temp 1 = CHR '':'' then
            (if char_at temp 2 = CHR '':'' then
               (if cs \<noteq> [] then (of_char c, d\<lparr>nextchar := [], optarg := Str cs\<rparr>)
                else (of_char c, d\<lparr>nextchar := [], optarg := NULL\<rparr>))
             else
               (if cs \<noteq> [] then (of_char c, d\<lparr>nextchar := [], optarg := Str cs\<rparr>)
                else
                  (case unscanned d of
                     [] \<Rightarrow> (if char_at optstring 0 = CHR '':'' then 58 else 63,
                            d\<lparr>nextchar := []\<rparr>)
                   | a # as \<Rightarrow>
                       (of_char c,
                        d\<lparr>scanned := scanned d @ [a], unscanned := as,
                          nextchar := [], optarg := Str a\<rparr>))))
          else (of_char c, d\<lparr>nextchar := cs\<rparr>))"

text \<open>
  The table entry for a long option name: an exact match if there is one, else the
  entries the name is a prefix of; several of those are ambiguous unless they agree
  in \<^verbatim>\<open>has_arg\<close> and \<^verbatim>\<open>val\<close>.
\<close>

datatype long_match = Not_found | Ambiguous | Found option_rec

definition find_long_option :: "option_rec list \<Rightarrow> string \<Rightarrow> long_match" where
  "find_long_option longopts nm =
     (case filter (\<lambda>p. name p = nm) longopts of
        p # ps \<Rightarrow> Found p
      | [] \<Rightarrow>
          (case filter (\<lambda>p. take (length nm) (name p) = nm) longopts of
             [] \<Rightarrow> Not_found
           | p # ps \<Rightarrow>
               if list_ex (\<lambda>q. has_arg q \<noteq> has_arg p \<or> val q \<noteq> val p) ps
               then Ambiguous else Found p))"

text \<open>
  An element \<^verbatim>\<open>--\<close>\<open>txt\<close>. The name is \<open>txt\<close> up to the first \<^verbatim>\<open>=\<close>. An argument
  after \<^verbatim>\<open>=\<close> is taken if the option has one and is an error otherwise; without
  \<^verbatim>\<open>=\<close> an option with a required argument takes the next element, and it is an
  error when there is none.
\<close>

definition process_long_option ::
    "string \<Rightarrow> option_rec list \<Rightarrow> string \<Rightarrow> getopt_data \<Rightarrow> int \<times> getopt_data" where
  "process_long_option optstring longopts txt d =
     (let nm = takeWhile (\<lambda>x. x \<noteq> CHR ''='') txt in
      case find_long_option longopts nm of
        Not_found \<Rightarrow> (63, d)
      | Ambiguous \<Rightarrow> (63, d)
      | Found p \<Rightarrow>
          if length nm < length txt then
            (if has_arg p \<noteq> 0 then (val p, d\<lparr>optarg := Str (drop (length nm + 1) txt)\<rparr>)
             else (63, d))
          else if has_arg p = 1 then
            (case unscanned d of
               a # as \<Rightarrow>
                 (val p, d\<lparr>scanned := scanned d @ [a], unscanned := as, optarg := Str a\<rparr>)
             | [] \<Rightarrow> (if char_at optstring 0 = CHR '':'' then 58 else 63, d))
          else (val p, d))"

text \<open>
  One call of \<^verbatim>\<open>getopt_long\<close>: the value returned and the new state.
  \<^verbatim>\<open>optarg\<close> is reset first. Inside a group of short options the next character is
  read. Otherwise the non-options in front are passed over; then the scan ends (-1)
  at the end of \<^verbatim>\<open>argv\<close> or at \<^verbatim>\<open>--\<close>, after which every element is a non-option;
  an element starting with \<^verbatim>\<open>--\<close> is a long option; any other starts a group of
  short options. The ordering is the default one (\<^verbatim>\<open>PERMUTE\<close>):
  \<open>optstring\<close> starts with neither \<^verbatim>\<open>+\<close> nor \<^verbatim>\<open>-\<close> and \<^verbatim>\<open>POSIXLY_CORRECT\<close> is not
  set. Messages on \<^verbatim>\<open>stderr\<close> are not modelled.
\<close>

definition getopt_long :: "string \<Rightarrow> option_rec list \<Rightarrow> getopt_data \<Rightarrow> int \<times> getopt_data" where
  "getopt_long optstring longopts d0 =
     (let d = d0\<lparr>optarg := NULL\<rparr> in
      case nextchar d of
        c # cs \<Rightarrow> short_option optstring c cs d
      | [] \<Rightarrow>
          (let d1 = d\<lparr>nonopts := nonopts d @ takeWhile NONOPTION_P (unscanned d),
                      unscanned := dropWhile NONOPTION_P (unscanned d)\<rparr> in
           case unscanned d1 of
             [] \<Rightarrow> (- 1, d1)
           | a # as \<Rightarrow>
               if a = ''--'' then
                 (- 1, d1\<lparr>scanned := scanned d1 @ [a], nonopts := nonopts d1 @ as,
                         unscanned := []\<rparr>)
               else if char_at a 1 = CHR ''-'' then
                 process_long_option optstring longopts (drop 2 a)
                   (d1\<lparr>scanned := scanned d1 @ [a], unscanned := as\<rparr>)
               else
                 short_option optstring (char_at a 1) (drop 2 a)
                   (d1\<lparr>scanned := scanned d1 @ [a], unscanned := as\<rparr>)))"

section \<open>example.c\<close>

text \<open>
  The eight variables of \<^verbatim>\<open>main\<close> that \<^verbatim>\<open>parse_args\<close> writes through its pointer
  parameters. \<^verbatim>\<open>*words\<close> points into \<^verbatim>\<open>argv\<close>: the model holds the strings from
  there to the end of \<^verbatim>\<open>argv\<close>. \<^verbatim>\<open>size_t\<close> is a \<open>nat\<close>.
\<close>

record parse_vars =
  block_size :: "c_int option"
  fave_number :: "c_int option"
  quiet :: "c_int option"
  username :: "c_str option"
  out_file :: "c_str option"
  in_file :: "c_str option"
  words :: "string list option"
  words__size :: "nat option"

text \<open>\<^verbatim>\<open>main\<close> declares all eight without an initialiser.\<close>

definition main_vars :: parse_vars where
  "main_vars =
     \<lparr>block_size = None, fave_number = None, quiet = None, username = None,
      out_file = None, in_file = None, words = None, words__size = None\<rparr>"

text \<open>The local variables of \<^verbatim>\<open>parse_args\<close> that record which options were given.\<close>

record parse_locals =
  block_size__isset :: c_int
  fave_number__isset :: c_int
  username__isset :: c_int

definition parse_locals_init :: parse_locals where
  "parse_locals_init =
     \<lparr>block_size__isset = 0, fave_number__isset = 0, username__isset = 0\<rparr>"

definition block_size__default :: c_int where
  "block_size__default = 12"

definition fave_number__default :: c_int where
  "fave_number__default = 0xDEADBEEF"

definition username__default :: c_str where
  "username__default = Str ''John Smith''"

definition longopts :: "option_rec list" where
  "longopts =
     [\<lparr>name = ''block-size'', has_arg = required_argument, val = 98\<rparr>,
      \<lparr>name = ''fav-number'', has_arg = required_argument, val = 33\<rparr>,
      \<lparr>name = ''quiet'', has_arg = no_argument, val = 113\<rparr>,
      \<lparr>name = ''name'', has_arg = required_argument, val = 68\<rparr>,
      \<lparr>name = ''help'', has_arg = 0, val = of_char CHR ''h''\<rparr>]"

definition optstring :: string where
  "optstring = ''b:qh''"

text \<open>What is left to scan: the characters of the current group and of the elements
  not looked at yet. Every call of \<^verbatim>\<open>getopt_long\<close> that finds an option makes it
  smaller, so the loop of \<^verbatim>\<open>parse_args\<close> ends.\<close>

definition scan_size :: "getopt_data \<Rightarrow> nat" where
  "scan_size d = length (nextchar d) + sum_list (map (\<lambda>a. Suc (length a)) (unscanned d))"

text \<open>Lines 69 to 77: the defaults of the value options that were not given.\<close>

definition set_defaults :: "parse_vars \<Rightarrow> parse_locals \<Rightarrow> parse_vars" where
  "set_defaults v l =
     (let v1 = (if block_size__isset l = 0 then v\<lparr>block_size := Some block_size__default\<rparr> else v);
          v2 = (if fave_number__isset l = 0 then v1\<lparr>fave_number := Some fave_number__default\<rparr> else v1)
      in if username__isset l = 0 then v2\<lparr>username := Some username__default\<rparr> else v2)"

text \<open>
  Lines 79 to 97: the positional arguments. \<open>argv\<close> and \<open>oi\<close> are the permuted
  \<^verbatim>\<open>argv\<close> and \<^verbatim>\<open>optind\<close> that the scan left; \<^verbatim>\<open>argv += n\<close> is \<open>drop n\<close>. \<^verbatim>\<open>argc\<close>
  is an \<open>int\<close>, as \<^verbatim>\<open>argc - optind\<close> is negative when \<^verbatim>\<open>argc\<close> is 0.
\<close>

definition positionals :: "string list \<Rightarrow> nat \<Rightarrow> parse_vars \<Rightarrow> halt + parse_vars" where
  "positionals argv oi v =
     (let argc = int (length argv) in
      if argc - int oi < 1 then Inl (Usage_exit 1)
      else
        (let argv1 = drop oi argv;
             argc1 = argc - int oi;
             v1 = v\<lparr>out_file := Some (argv_at argv1 0)\<rparr>;
             argv2 = drop 1 argv1;
             argc2 = argc1 - 1;
             v2 = (if 0 < argc2 then v1\<lparr>in_file := Some (argv_at argv2 0)\<rparr> else v1);
             argv3 = (if 0 < argc2 then drop 1 argv2 else argv2);
             argc3 = (if 0 < argc2 then argc2 - 1 else argc2)
         in if 0 < argc3
            then Inr (v2\<lparr>words := Some argv3, words__size := Some (nat argc3)\<rparr>)
            else Inr v2))"

text \<open>
  The loop of lines 44 to 68 and, when \<^verbatim>\<open>getopt_long\<close> returns -1, the rest of
  \<^verbatim>\<open>parse_args\<close>. \<open>v\<close> holds what the caller's variables hold, \<open>l\<close> the locals.
  \<^verbatim>\<open>case 'h'\<close> and \<^verbatim>\<open>default\<close> are one branch of the \<^verbatim>\<open>switch\<close>. The recursion
  ends because every call of \<^verbatim>\<open>getopt_long\<close> that finds an option leaves less to scan;
  the termination proofs of the three recursive functions of this section follow the
  definitions, in the section on termination.
\<close>

function parse_loop ::
    "string list \<Rightarrow> getopt_data \<Rightarrow> parse_vars \<Rightarrow> parse_locals \<Rightarrow> halt + parse_vars" where
  "parse_loop argv d v l =
     (case getopt_long optstring longopts d of
        (ch, d') \<Rightarrow>
          if ch = - 1 then
            positionals (argv_permuted argv d') (optind d') (set_defaults v l)
          else if ch = 98 then
            (case optarg d' of
               NULL \<Rightarrow> Inl Null_optarg
             | Str a \<Rightarrow>
                 parse_loop argv d' (v\<lparr>block_size := Some (atoi a)\<rparr>)
                   (l\<lparr>block_size__isset := 1\<rparr>))
          else if ch = 33 then
            (case optarg d' of
               NULL \<Rightarrow> Inl Null_optarg
             | Str a \<Rightarrow>
                 parse_loop argv d' (v\<lparr>fave_number := Some (atoi a)\<rparr>)
                   (l\<lparr>fave_number__isset := 1\<rparr>))
          else if ch = 113 then parse_loop argv d' (v\<lparr>quiet := Some 1\<rparr>) l
          else if ch = 68 then
            parse_loop argv d' (v\<lparr>username := Some (optarg d')\<rparr>) (l\<lparr>username__isset := 1\<rparr>)
          else if ch = 0 then parse_loop argv d' v l
          else if ch = of_char CHR ''h'' then Inl (Usage_exit 1)
          else Inl (Usage_exit 1))"
  by pat_completeness auto

definition parse_args :: "string list \<Rightarrow> parse_vars \<Rightarrow> halt + parse_vars" where
  "parse_args argv v = parse_loop argv (getopt_init argv) v parse_locals_init"

text \<open>
  Two observations of the scan, used to state what the user supplied. \<open>getopt_codes d\<close>
  is the sequence of values that \<^verbatim>\<open>getopt_long\<close> returns from state \<open>d\<close> on, up to
  the call that returns -1; \<open>getopt_end d\<close> is the state that call leaves.
\<close>

function getopt_codes :: "getopt_data \<Rightarrow> int list" where
  "getopt_codes d =
     (case getopt_long optstring longopts d of
        (ch, d') \<Rightarrow> if ch = - 1 then [] else ch # getopt_codes d')"
  by pat_completeness auto

function getopt_end :: "getopt_data \<Rightarrow> getopt_data" where
  "getopt_end d =
     (case getopt_long optstring longopts d of
        (ch, d') \<Rightarrow> if ch = - 1 then d' else getopt_end d')"
  by pat_completeness auto

text \<open>The option codes reported for an argument vector, and its operands: the
  elements from \<^verbatim>\<open>optind\<close> on when the scan has ended.\<close>

definition options_given :: "string list \<Rightarrow> int list" where
  "options_given argv = getopt_codes (getopt_init argv)"

definition operands :: "string list \<Rightarrow> string list" where
  "operands argv =
     (let d = getopt_end (getopt_init argv) in drop (optind d) (argv_permuted argv d))"

section \<open>simple\_gen.c\<close>

text \<open>
  The three variables of \<^verbatim>\<open>main\<close> that \<^verbatim>\<open>populate_args\<close> writes through its pointer
  parameters. \<open>None\<close> is a variable that has not been assigned: \<^verbatim>\<open>main\<close> declares all
  three without an initialiser.
\<close>

record simple_vars =
  int_arg :: "c_int option"
  char_arg :: "char option"
  np_arg :: "c_int option"

definition simple_main_vars :: simple_vars where
  "simple_main_vars = \<lparr>int_arg = None, char_arg = None, np_arg = None\<rparr>"

text \<open>
  The \<^verbatim>\<open>for\<close> loop of \<^verbatim>\<open>populate_args\<close>, from index \<open>i\<close>. \<open>argc\<close> is the length of
  \<open>argv\<close>. Every iteration ends with \<^verbatim>\<open>i++\<close>, also the two that read \<^verbatim>\<open>argv[i+1]\<close>.
\<close>

function populate_loop :: "nat \<Rightarrow> string list \<Rightarrow> simple_vars \<Rightarrow> halt + simple_vars" where
  "populate_loop i argv v =
     (if i < length argv then
        (if argv ! i = ''--int_arg'' then
           (case argv_at argv (i + 1) of
              NULL \<Rightarrow> Inl (Null_argv (i + 1))
            | Str a \<Rightarrow> populate_loop (i + 1) argv (v\<lparr>int_arg := Some (atoi a)\<rparr>))
         else if argv ! i = ''--char_arg'' then
           (case argv_at argv (i + 1) of
              NULL \<Rightarrow> Inl (Null_argv (i + 1))
            | Str a \<Rightarrow> populate_loop (i + 1) argv (v\<lparr>char_arg := Some (char_at a 0)\<rparr>))
         else populate_loop (i + 1) argv (v\<lparr>np_arg := Some (atoi (argv ! i))\<rparr>))
      else Inr v)"
  by pat_completeness auto
termination
  by (relation "measure (\<lambda>(i, argv, v). length argv - i)") auto

definition populate_args :: "simple_vars \<Rightarrow> string list \<Rightarrow> halt + simple_vars" where
  "populate_args v argv = populate_loop 1 argv v"

section \<open>Termination of the scan\<close>

text \<open>A call of \<^verbatim>\<open>getopt_long\<close> that returns something else than -1 leaves less to
  scan than it found.\<close>

lemma short_option_size:
  "short_option os c cs d = (ch, d') \<Longrightarrow>
   scan_size d' \<le> length cs + sum_list (map (\<lambda>a. Suc (length a)) (unscanned d))"
  by (auto simp: short_option_def scan_size_def split: option.splits if_splits list.splits)

lemma process_long_option_size:
  "process_long_option os lo txt d = (ch, d') \<Longrightarrow> scan_size d' \<le> scan_size d"
  by (auto simp: process_long_option_def scan_size_def Let_def
      split: long_match.splits if_splits list.splits)

lemma sum_list_dropWhile_le:
  "sum_list (map f (dropWhile P xs)) \<le> (sum_list (map f xs) :: nat)"
  by (induction xs) auto

lemma getopt_long_size:
  assumes "getopt_long os lo d = (ch, d')" and "ch \<noteq> - 1"
  shows "scan_size d' < scan_size d"
proof (cases "nextchar d")
  case (Cons c cs)
  with assms(1) have "short_option os c cs (d\<lparr>optarg := NULL\<rparr>) = (ch, d')"
    by (simp add: getopt_long_def)
  from short_option_size [OF this] Cons show ?thesis
    by (simp add: scan_size_def)
next
  case Nil
  show ?thesis
  proof (cases "dropWhile NONOPTION_P (unscanned d)")
    case none_left: Nil
    with Nil assms show ?thesis
      by (simp add: getopt_long_def)
  next
    case (Cons a as)
    have le: "sum_list (map (\<lambda>a. Suc (length a)) (a # as))
              \<le> sum_list (map (\<lambda>a. Suc (length a)) (unscanned d))"
      using sum_list_dropWhile_le [of "\<lambda>a. Suc (length a)" NONOPTION_P "unscanned d"] Cons
      by simp
    show ?thesis
    proof (cases "a = ''--''")
      case True
      with Nil Cons assms show ?thesis
        by (simp add: getopt_long_def)
    next
      case False
      show ?thesis
      proof (cases "char_at a 1 = CHR ''-''")
        case True
        with False Nil Cons assms(1) obtain d1 where
          "process_long_option os lo (drop 2 a) d1 = (ch, d')"
          "unscanned d1 = as" "nextchar d1 = []"
          by (simp add: getopt_long_def)
        from process_long_option_size [OF this(1)] this(2,3) le Nil show ?thesis
          by (simp add: scan_size_def)
      next
        case short: False
        with False Nil Cons assms(1) obtain d1 where
          "short_option os (char_at a 1) (drop 2 a) d1 = (ch, d')" "unscanned d1 = as"
          by (simp add: getopt_long_def)
        from short_option_size [OF this(1)] this(2) le Nil show ?thesis
          by (simp add: scan_size_def)
      qed
    qed
  qed
qed

termination parse_loop
proof (relation "measure (\<lambda>(argv, d, v, l). scan_size d)")
qed (auto dest: getopt_long_size [OF sym])

termination getopt_codes
proof (relation "measure scan_size")
qed (auto dest: getopt_long_size [OF sym])

termination getopt_end
proof (relation "measure scan_size")
qed (auto dest: getopt_long_size [OF sym])

declare parse_loop.simps [simp del] getopt_codes.simps [simp del] getopt_end.simps [simp del]

section \<open>Facts about the scan of example.c\<close>

text \<open>The elements already taken as options do not influence the rest of the scan,
  nor what \<^verbatim>\<open>parse_args\<close> returns; of \<^verbatim>\<open>argv\<close> only the program name is kept
  in place.\<close>

lemma short_option_scanned:
  assumes "d1\<lparr>scanned := []\<rparr> = d2\<lparr>scanned := []\<rparr>"
  shows "map_prod id (\<lambda>d. d\<lparr>scanned := []\<rparr>) (short_option os c cs d1) =
         map_prod id (\<lambda>d. d\<lparr>scanned := []\<rparr>) (short_option os c cs d2)"
  using assms
  by (cases d1, cases d2) (simp add: short_option_def split: option.splits list.splits)

lemma process_long_option_scanned:
  assumes "d1\<lparr>scanned := []\<rparr> = d2\<lparr>scanned := []\<rparr>"
  shows "map_prod id (\<lambda>d. d\<lparr>scanned := []\<rparr>) (process_long_option os lo txt d1) =
         map_prod id (\<lambda>d. d\<lparr>scanned := []\<rparr>) (process_long_option os lo txt d2)"
  using assms
  by (cases d1, cases d2)
    (simp add: process_long_option_def Let_def split: long_match.splits list.splits)

lemma getopt_long_scanned:
  assumes "d1\<lparr>scanned := []\<rparr> = d2\<lparr>scanned := []\<rparr>"
  shows "map_prod id (\<lambda>d. d\<lparr>scanned := []\<rparr>) (getopt_long os lo d1) =
         map_prod id (\<lambda>d. d\<lparr>scanned := []\<rparr>) (getopt_long os lo d2)"
proof -
  from assms have eq: "nonopts d1 = nonopts d2" "unscanned d1 = unscanned d2"
    "nextchar d1 = nextchar d2"
    by (cases d1, cases d2, simp)+
  show ?thesis
  proof (cases "nextchar d1")
    case (Cons c cs)
    have "(d1\<lparr>optarg := NULL\<rparr>)\<lparr>scanned := []\<rparr> = (d2\<lparr>optarg := NULL\<rparr>)\<lparr>scanned := []\<rparr>"
      using assms by (cases d1, cases d2) simp
    from short_option_scanned [OF this] Cons eq show ?thesis
      by (simp add: getopt_long_def)
  next
    case Nil
    show ?thesis
    proof (cases "dropWhile NONOPTION_P (unscanned d1)")
      case none_left: Nil
      with Nil eq assms show ?thesis
        by (cases d1, cases d2) (simp add: getopt_long_def Let_def del: dropWhile_eq_Nil_conv)
    next
      case (Cons a as)
      define e1 where "e1 = d1\<lparr>optarg := NULL,
          nonopts := nonopts d1 @ takeWhile NONOPTION_P (unscanned d1),
          scanned := scanned d1 @ [a], unscanned := as\<rparr>"
      define e2 where "e2 = d2\<lparr>optarg := NULL,
          nonopts := nonopts d2 @ takeWhile NONOPTION_P (unscanned d2),
          scanned := scanned d2 @ [a], unscanned := as\<rparr>"
      have e: "e1\<lparr>scanned := []\<rparr> = e2\<lparr>scanned := []\<rparr>"
        using assms by (cases d1, cases d2) (simp add: e1_def e2_def)
      show ?thesis
      proof (cases "a = ''--''")
        case True
        with Nil Cons eq assms show ?thesis
          by (cases d1, cases d2) (simp add: getopt_long_def Let_def)
      next
        case False
        from Nil Cons eq False
        have "getopt_long os lo d1 =
                (if char_at a 1 = CHR ''-'' then process_long_option os lo (drop 2 a) e1
                 else short_option os (char_at a 1) (drop 2 a) e1)"
          and "getopt_long os lo d2 =
                (if char_at a 1 = CHR ''-'' then process_long_option os lo (drop 2 a) e2
                 else short_option os (char_at a 1) (drop 2 a) e2)"
          by (simp_all add: getopt_long_def Let_def e1_def e2_def)
        with short_option_scanned [OF e] process_long_option_scanned [OF e]
        show ?thesis by simp
      qed
    qed
  qed
qed

lemma positionals_scanned:
  assumes "d1\<lparr>scanned := []\<rparr> = d2\<lparr>scanned := []\<rparr>" and "take 1 argv1 = take 1 argv2"
  shows "positionals (argv_permuted argv1 d1) (optind d1) v =
         positionals (argv_permuted argv2 d2) (optind d2) v"
proof -
  from assms have eq: "nonopts d1 = nonopts d2" "unscanned d1 = unscanned d2"
    by (cases d1, cases d2, simp)+
  have len: "int (length (argv_permuted argv1 d1)) - int (optind d1) =
        int (length (argv_permuted argv2 d2)) - int (optind d2)"
    using eq assms(2) by (cases argv1; cases argv2) (simp_all add: argv_permuted_def optind_def)
  have dr: "drop (optind d1) (argv_permuted argv1 d1) = drop (optind d2) (argv_permuted argv2 d2)"
    using eq assms(2) by (cases argv1; cases argv2) (simp_all add: argv_permuted_def optind_def)
  show ?thesis
    by (simp only: positionals_def Let_def len dr)
qed

lemma parse_loop_scanned:
  assumes "d1\<lparr>scanned := []\<rparr> = d2\<lparr>scanned := []\<rparr>" and "take 1 argv1 = take 1 argv2"
  shows "parse_loop argv1 d1 v l = parse_loop argv2 d2 v l"
  using assms
proof (induction argv1 d1 v l arbitrary: d2 rule: parse_loop.induct)
  case (1 argv d v l)
  obtain ch d' where g1: "getopt_long optstring longopts d = (ch, d')"
    by (cases "getopt_long optstring longopts d")
  obtain ch2 d2' where g2: "getopt_long optstring longopts d2 = (ch2, d2')"
    by (cases "getopt_long optstring longopts d2")
  from getopt_long_scanned [OF "1.prems"(1), of optstring longopts] g1 g2
  have ch: "ch2 = ch" and st: "d'\<lparr>scanned := []\<rparr> = d2'\<lparr>scanned := []\<rparr>"
    by simp_all
  from st have oa: "optarg d2' = optarg d'"
    by (cases d', cases d2') simp
  note ih = "1.IH" [OF g1 [symmetric]]
  show ?case
  proof (cases "ch = - 1")
    case True
    with g1 g2 ch positionals_scanned [OF st "1.prems"(2)] show ?thesis
      by (simp add: parse_loop.simps [of argv d] parse_loop.simps [of argv2 d2])
  next
    case False
    show ?thesis
      using g1 g2 ch oa False ih st "1.prems"(2)
      by (auto simp add: parse_loop.simps [of argv d] parse_loop.simps [of argv2 d2] split: c_str.splits)
  qed
qed

text \<open>Whenever the scan reports an option that takes a value, \<^verbatim>\<open>optarg\<close> points to
  the value: \<^verbatim>\<open>parse_args\<close> never passes \<^verbatim>\<open>NULL\<close> to \<^verbatim>\<open>atoi\<close>.\<close>

lemma find_long_option_Found:
  assumes "find_long_option lo nm = Found p"
  shows "p \<in> set lo"
proof (cases "filter (\<lambda>p. name p = nm) lo")
  case (Cons q qs)
  with assms have "q = p" by (simp add: find_long_option_def)
  with Cons have "p \<in> set (filter (\<lambda>p. name p = nm) lo)" by simp
  then show ?thesis by simp
next
  case Nil
  show ?thesis
  proof (cases "filter (\<lambda>p. take (length nm) (name p) = nm) lo")
    case none: Nil
    with Nil assms show ?thesis by (simp add: find_long_option_def)
  next
    case (Cons q qs)
    with Nil assms have "q = p" by (simp add: find_long_option_def split: if_splits)
    with Cons have "p \<in> set (filter (\<lambda>p. take (length nm) (name p) = nm) lo)" by simp
    then show ?thesis by simp
  qed
qed

lemma longopts_required:
  "p \<in> set longopts \<Longrightarrow> val p = 98 \<or> val p = 33 \<or> val p = 68 \<Longrightarrow> has_arg p = 1"
  by (auto simp: longopts_def required_argument_def)

lemma process_long_option_optarg:
  assumes "process_long_option optstring longopts txt d = (ch, d')"
    and "ch = 98 \<or> ch = 33 \<or> ch = 68"
  shows "optarg d' \<noteq> NULL"
  using assms longopts_required find_long_option_Found [of longopts "takeWhile (\<lambda>x. x \<noteq> CHR ''='') txt"]
  by (auto simp: process_long_option_def Let_def optstring_def char_at_def
      split: long_match.splits if_splits list.splits)

lemma strchr_optstring:
  "strchr ''b:qh'' c =
     (if c = CHR ''b'' then Some ''b:qh'' else if c = CHR '':'' then Some '':qh''
      else if c = CHR ''q'' then Some ''qh'' else if c = CHR ''h'' then Some ''h'' else None)"
  by (simp add: strchr_def)

lemma short_option_optarg:
  assumes "short_option optstring c cs d = (ch, d')"
    and "ch = 98 \<or> ch = 33 \<or> ch = 68"
  shows "optarg d' \<noteq> NULL"
proof -
  consider "c = CHR ''b''" | "c = CHR '':''" | "c = CHR ''q''" | "c = CHR ''h''"
    | "c \<noteq> CHR ''b''" "c \<noteq> CHR '':''" "c \<noteq> CHR ''q''" "c \<noteq> CHR ''h''"
    by blast
  then show ?thesis
  proof cases
    case 1
    with assms show ?thesis
      by (auto simp: short_option_def optstring_def strchr_optstring char_at_def split: list.splits if_splits)
  next
    case 2
    with assms show ?thesis
      by (auto simp: short_option_def optstring_def strchr_optstring)
  next
    case 3
    with assms show ?thesis
      by (auto simp: short_option_def optstring_def strchr_optstring char_at_def)
  next
    case 4
    with assms show ?thesis
      by (auto simp: short_option_def optstring_def strchr_optstring char_at_def)
  next
    case 5
    with assms show ?thesis
      by (auto simp: short_option_def optstring_def strchr_optstring)
  qed
qed

lemma getopt_long_cases [consumes 1, case_names group finished long short]:
  assumes "getopt_long os lo d = (ch, d')"
  obtains c cs where "nextchar d = c # cs"
      and "short_option os c cs (d\<lparr>optarg := NULL\<rparr>) = (ch, d')"
  | "nextchar d = []" and "ch = - 1"
  | a as e where "nextchar d = []" and "dropWhile NONOPTION_P (unscanned d) = a # as"
      and "process_long_option os lo (drop 2 a) e = (ch, d')"
  | a as e where "nextchar d = []" and "dropWhile NONOPTION_P (unscanned d) = a # as"
      and "short_option os (char_at a 1) (drop 2 a) e = (ch, d')"
proof (cases "nextchar d")
  case (Cons c cs)
  with assms have "short_option os c cs (d\<lparr>optarg := NULL\<rparr>) = (ch, d')"
    by (simp add: getopt_long_def)
  with Cons that(1) show ?thesis by blast
next
  case Nil
  show ?thesis
  proof (cases "dropWhile NONOPTION_P (unscanned d)")
    case none_left: Nil
    with Nil assms have "ch = - 1"
      by (simp add: getopt_long_def Let_def del: dropWhile_eq_Nil_conv)
    with Nil that(2) show ?thesis by blast
  next
    case (Cons a as)
    show ?thesis
    proof (cases "a = ''--''")
      case True
      with Nil Cons assms have "ch = - 1"
        by (simp add: getopt_long_def Let_def)
      with Nil that(2) show ?thesis by blast
    next
      case False
      show ?thesis
      proof (cases "char_at a 1 = CHR ''-''")
        case True
        with False Nil Cons assms obtain e where
          "process_long_option os lo (drop 2 a) e = (ch, d')"
          by (simp add: getopt_long_def Let_def)
        with Nil Cons that(3) show ?thesis by blast
      next
        case no_dash: False
        with False Nil Cons assms obtain e where
          "short_option os (char_at a 1) (drop 2 a) e = (ch, d')"
          by (simp add: getopt_long_def Let_def)
        with Nil Cons that(4) show ?thesis by blast
      qed
    qed
  qed
qed

lemma getopt_long_optarg:
  assumes "getopt_long optstring longopts d = (ch, d')"
    and "ch = 98 \<or> ch = 33 \<or> ch = 68"
  shows "optarg d' \<noteq> NULL"
  using assms(1)
proof (cases rule: getopt_long_cases)
  case (group c cs)
  from short_option_optarg [OF this(2) assms(2)] show ?thesis .
next
  case finished
  with assms(2) show ?thesis by simp
next
  case (long a as e)
  from process_long_option_optarg [OF this(3) assms(2)] show ?thesis .
next
  case (short a as e)
  from short_option_optarg [OF this(3) assms(2)] show ?thesis .
qed

text \<open>What the loop of \<^verbatim>\<open>parse_args\<close> does to the caller's variables, in terms of
  the option codes that the scan reports.\<close>

lemma positionals_options:
  "positionals a oi v = Inr r \<Longrightarrow>
   block_size r = block_size v \<and> fave_number r = fave_number v \<and> quiet r = quiet v
   \<and> username r = username v"
  by (auto simp: positionals_def Let_def split: if_splits)

lemma positionals_out_file:
  "positionals a oi v = Inr r \<Longrightarrow> out_file r \<noteq> None"
  by (auto simp: positionals_def Let_def split: if_splits)

lemma parse_loop_defaults:
  assumes "parse_loop argv d v l = Inr r"
  shows "(98 \<notin> set (getopt_codes d) \<longrightarrow>
            block_size r = (if block_size__isset l = 0 then Some block_size__default else block_size v))
       \<and> (33 \<notin> set (getopt_codes d) \<longrightarrow>
            fave_number r = (if fave_number__isset l = 0 then Some fave_number__default else fave_number v))
       \<and> (68 \<notin> set (getopt_codes d) \<longrightarrow>
            username r = (if username__isset l = 0 then Some username__default else username v))
       \<and> quiet r = (if 113 \<in> set (getopt_codes d) then Some 1 else quiet v)"
  using assms
proof (induction argv d v l rule: parse_loop.induct)
  case (1 argv d v l)
  obtain ch d' where g: "getopt_long optstring longopts d = (ch, d')"
    by (cases "getopt_long optstring longopts d")
  note ih = "1.IH" [OF g [symmetric]]
  show ?case
  proof (cases "ch = - 1")
    case True
    with "1.prems" g have "positionals (argv_permuted argv d') (optind d') (set_defaults v l) = Inr r"
      by (simp add: parse_loop.simps [of argv d])
    from positionals_options [OF this] True g show ?thesis
      by (simp add: getopt_codes.simps [of d] set_defaults_def Let_def)
  next
    case False
    with "1.prems" g ih show ?thesis
      by (auto simp add: parse_loop.simps [of argv d] getopt_codes.simps [of d]
          split: if_splits c_str.splits)
  qed
qed


lemma parse_loop_bound:
  assumes "parse_loop argv d v l = Inr r"
    and "block_size__isset l \<noteq> 0 \<longrightarrow> block_size v \<noteq> None"
    and "fave_number__isset l \<noteq> 0 \<longrightarrow> fave_number v \<noteq> None"
    and "username__isset l \<noteq> 0 \<longrightarrow> username v \<noteq> None"
  shows "block_size r \<noteq> None \<and> fave_number r \<noteq> None \<and> username r \<noteq> None
         \<and> out_file r \<noteq> None"
  using assms
proof (induction argv d v l rule: parse_loop.induct)
  case (1 argv d v l)
  obtain ch d' where g: "getopt_long optstring longopts d = (ch, d')"
    by (cases "getopt_long optstring longopts d")
  note ih = "1.IH" [OF g [symmetric]]
  show ?case
  proof (cases "ch = - 1")
    case True
    with "1.prems"(1) g have p: "positionals (argv_permuted argv d') (optind d') (set_defaults v l) = Inr r"
      by (simp add: parse_loop.simps [of argv d])
    from positionals_options [OF p] positionals_out_file [OF p] "1.prems"(2-4) show ?thesis
      by (simp add: set_defaults_def Let_def)
  next
    case False
    with "1.prems" g ih show ?thesis
      by (auto simp add: parse_loop.simps [of argv d] split: if_splits c_str.splits)
  qed
qed

lemma parse_loop_usage:
  assumes "c \<in> set (getopt_codes d)"
    and "c \<noteq> 98" "c \<noteq> 33" "c \<noteq> 113" "c \<noteq> 68" "c \<noteq> 0"
  shows "parse_loop argv d v l = Inl (Usage_exit 1)"
  using assms(1)
proof (induction argv d v l rule: parse_loop.induct)
  case (1 argv d v l)
  obtain ch d' where g: "getopt_long optstring longopts d = (ch, d')"
    by (cases "getopt_long optstring longopts d")
  note ih = "1.IH" [OF g [symmetric]]
  from "1.prems" g have ne: "ch \<noteq> - 1" and mem: "c = ch \<or> c \<in> set (getopt_codes d')"
    by (auto simp: getopt_codes.simps [of d] split: if_splits)
  consider "ch = 98" | "ch = 33" | "ch = 113" | "ch = 68" | "ch = 0"
    | "ch \<noteq> 98" "ch \<noteq> 33" "ch \<noteq> 113" "ch \<noteq> 68" "ch \<noteq> 0"
    by blast
  then show ?case
  proof cases
    case 1
    with getopt_long_optarg [OF g] obtain a where a: "optarg d' = Str a"
      by (cases "optarg d'") auto
    from 1 mem assms(2) have "c \<in> set (getopt_codes d')" by auto
    from ih(1) [OF ne 1 a this] g 1 a show ?thesis
      by (simp add: parse_loop.simps [of argv d])
  next
    case 2
    with getopt_long_optarg [OF g] obtain a where a: "optarg d' = Str a"
      by (cases "optarg d'") auto
    from 2 mem assms(3) have "c \<in> set (getopt_codes d')" by auto
    with ih(2) ne 2 a g show ?thesis
      by (simp add: parse_loop.simps [of argv d])
  next
    case 3
    from 3 mem assms(4) have "c \<in> set (getopt_codes d')" by auto
    with ih(3) ne 3 g show ?thesis
      by (simp add: parse_loop.simps [of argv d])
  next
    case 4
    from 4 mem assms(5) have "c \<in> set (getopt_codes d')" by auto
    with ih(4) ne 4 g show ?thesis
      by (simp add: parse_loop.simps [of argv d])
  next
    case 5
    from 5 mem assms(6) have "c \<in> set (getopt_codes d')" by auto
    with ih(5) ne 5 g show ?thesis
      by (simp add: parse_loop.simps [of argv d])
  next
    case 6
    with ne g show ?thesis
      by (simp add: parse_loop.simps [of argv d])
  qed
qed

lemma parse_loop_positionals:
  assumes "parse_loop argv d v l = Inr r"
  shows "\<exists>v'. positionals (argv_permuted argv (getopt_end d)) (optind (getopt_end d)) v' = Inr r
           \<and> in_file v' = in_file v \<and> words v' = words v \<and> words__size v' = words__size v"
  using assms
proof (induction argv d v l rule: parse_loop.induct)
  case (1 argv d v l)
  obtain ch d' where g: "getopt_long optstring longopts d = (ch, d')"
    by (cases "getopt_long optstring longopts d")
  note ih = "1.IH" [OF g [symmetric]]
  show ?case
  proof (cases "ch = - 1")
    case True
    with "1.prems"(1) g
    have "positionals (argv_permuted argv (getopt_end d)) (optind (getopt_end d)) (set_defaults v l) = Inr r"
      by (simp add: parse_loop.simps [of argv d] getopt_end.simps [of d])
    then show ?thesis
      by (auto simp: set_defaults_def Let_def intro!: exI [of _ "set_defaults v l"])
  next
    case False
    with "1.prems" g ih show ?thesis
      by (auto simp add: parse_loop.simps [of argv d] getopt_end.simps [of d]
          split: if_splits c_str.splits)
  qed
qed

lemma positionals_fave_number:
  "positionals a oi (v\<lparr>fave_number := x\<rparr>) =
     map_sum id (\<lambda>r. r\<lparr>fave_number := x\<rparr>) (positionals a oi v)"
  by (simp add: positionals_def Let_def)

lemma parse_loop_fave_number_given:
  assumes "parse_loop argv d v l = Inr r" and "33 \<notin> set (getopt_codes d)"
    and "v2 = v\<lparr>fave_number := x\<rparr>" and "l2 = l\<lparr>fave_number__isset := 1\<rparr>"
  shows "parse_loop argv d v2 l2 = Inr (r\<lparr>fave_number := x\<rparr>)"
  using assms
proof (induction argv d v l arbitrary: v2 l2 rule: parse_loop.induct)
  case (1 argv d v l)
  obtain ch d' where g: "getopt_long optstring longopts d = (ch, d')"
    by (cases "getopt_long optstring longopts d")
  note ih = "1.IH" [OF g [symmetric]]
  show ?case
  proof (cases "ch = - 1")
    case True
    have sd: "set_defaults (v\<lparr>fave_number := x\<rparr>) (l\<lparr>fave_number__isset := 1\<rparr>) =
          (set_defaults v l)\<lparr>fave_number := x\<rparr>"
      by (simp add: set_defaults_def Let_def)
    from True "1.prems" g show ?thesis
      by (simp add: parse_loop.simps [of argv d] sd positionals_fave_number)
  next
    case False
    from "1.prems"(2) g False have ne: "ch \<noteq> 33" and nm: "33 \<notin> set (getopt_codes d')"
      by (auto simp: getopt_codes.simps [of d])
    consider "ch = 98" | "ch = 113" | "ch = 68" | "ch = 0"
      | "ch \<noteq> 98" "ch \<noteq> 113" "ch \<noteq> 68" "ch \<noteq> 0"
      by blast
    then show ?thesis
    proof cases
      case 1
      with "1.prems"(1) g obtain a where a: "optarg d' = Str a"
        and run: "parse_loop argv d' (v\<lparr>block_size := Some (atoi a)\<rparr>) (l\<lparr>block_size__isset := 1\<rparr>) = Inr r"
        by (cases "optarg d'") (auto simp: parse_loop.simps [of argv d])
      have "parse_loop argv d' (v2\<lparr>block_size := Some (atoi a)\<rparr>) (l2\<lparr>block_size__isset := 1\<rparr>)
            = Inr (r\<lparr>fave_number := x\<rparr>)"
        by (rule ih(1) [OF False 1 a run nm]) (simp_all add: "1.prems"(3,4))
      with g 1 a show ?thesis
        by (simp add: parse_loop.simps [of argv d v2])
    next
      case 2
      with "1.prems"(1) g
      have run: "parse_loop argv d' (v\<lparr>quiet := Some 1\<rparr>) l = Inr r"
        by (simp add: parse_loop.simps [of argv d])
      have "parse_loop argv d' (v2\<lparr>quiet := Some 1\<rparr>) l2 = Inr (r\<lparr>fave_number := x\<rparr>)"
        by (rule ih(3) [OF False _ ne 2 run nm]) (simp_all add: 2 "1.prems"(3,4))
      with g 2 show ?thesis
        by (simp add: parse_loop.simps [of argv d v2])
    next
      case 3
      with "1.prems"(1) g
      have run: "parse_loop argv d' (v\<lparr>username := Some (optarg d')\<rparr>) (l\<lparr>username__isset := 1\<rparr>) = Inr r"
        by (simp add: parse_loop.simps [of argv d])
      have "parse_loop argv d' (v2\<lparr>username := Some (optarg d')\<rparr>) (l2\<lparr>username__isset := 1\<rparr>)
            = Inr (r\<lparr>fave_number := x\<rparr>)"
        by (rule ih(4) [OF False _ ne _ 3 run nm]) (simp_all add: 3 "1.prems"(3,4))
      with g 3 show ?thesis
        by (simp add: parse_loop.simps [of argv d v2])
    next
      case 4
      with "1.prems"(1) g
      have run: "parse_loop argv d' v l = Inr r"
        by (simp add: parse_loop.simps [of argv d])
      have "parse_loop argv d' v2 l2 = Inr (r\<lparr>fave_number := x\<rparr>)"
        by (rule ih(5) [OF False _ ne _ _ 4 run nm]) (simp_all add: 4 "1.prems"(3,4))
      with g 4 show ?thesis
        by (simp add: parse_loop.simps [of argv d v2])
    next
      case 5
      with "1.prems"(1) g False ne show ?thesis
        by (simp add: parse_loop.simps [of argv d])
    qed
  qed
qed

text \<open>The first call of \<^verbatim>\<open>getopt_long\<close> on an argument vector that starts with
  non-options, and one step of the loop.\<close>

lemma getopt_long_optarg_reset:
  "getopt_long os lo (d\<lparr>optarg := x\<rparr>) = getopt_long os lo d"
  by (simp add: getopt_long_def)

lemma parse_loop_optarg_reset:
  "parse_loop argv (d\<lparr>optarg := x\<rparr>) v l = parse_loop argv d v l"
  by (simp add: parse_loop.simps [of argv "d\<lparr>optarg := x\<rparr>"] parse_loop.simps [of argv d]
      getopt_long_optarg_reset)

lemma parse_loop_step:
  assumes "getopt_long optstring longopts d = (ch, d')"
  shows "parse_loop argv d v l =
     (if ch = - 1 then
        positionals (argv_permuted argv d') (optind d') (set_defaults v l)
      else if ch = 98 then
        (case optarg d' of
           NULL \<Rightarrow> Inl Null_optarg
         | Str a \<Rightarrow>
             parse_loop argv d' (v\<lparr>block_size := Some (atoi a)\<rparr>)
               (l\<lparr>block_size__isset := 1\<rparr>))
      else if ch = 33 then
        (case optarg d' of
           NULL \<Rightarrow> Inl Null_optarg
         | Str a \<Rightarrow>
             parse_loop argv d' (v\<lparr>fave_number := Some (atoi a)\<rparr>)
               (l\<lparr>fave_number__isset := 1\<rparr>))
      else if ch = 113 then parse_loop argv d' (v\<lparr>quiet := Some 1\<rparr>) l
      else if ch = 68 then
        parse_loop argv d' (v\<lparr>username := Some (optarg d')\<rparr>) (l\<lparr>username__isset := 1\<rparr>)
      else if ch = 0 then parse_loop argv d' v l
      else if ch = of_char CHR ''h'' then Inl (Usage_exit 1)
      else Inl (Usage_exit 1))"
  by (simp add: parse_loop.simps [of argv d] assms)

lemma getopt_long_first_option:
  assumes "list_all NONOPTION_P pre" and "\<not> NONOPTION_P t" and "t \<noteq> ''--''"
  shows "getopt_long os lo (getopt_init (prog # pre @ t # tail)) =
         (if char_at t 1 = CHR ''-''
          then process_long_option os lo (drop 2 t)
                 \<lparr>scanned = [t], nonopts = pre, unscanned = tail, nextchar = [], optarg = NULL\<rparr>
          else short_option os (char_at t 1) (drop 2 t)
                 \<lparr>scanned = [t], nonopts = pre, unscanned = tail, nextchar = [], optarg = NULL\<rparr>)"
proof -
  from assms(1) have "\<forall>x\<in>set pre. NONOPTION_P x"
    by (simp add: list_all_iff)
  with assms(2) have tw: "takeWhile NONOPTION_P (pre @ t # tail) = pre"
    and dw: "dropWhile NONOPTION_P (pre @ t # tail) = t # tail"
    by (simp_all add: takeWhile_append2 dropWhile_append2)
  from assms(3) show ?thesis
    unfolding getopt_long_def getopt_init_def Let_def
    by (simp add: tw dw del: dropWhile_eq_Nil_conv)
qed

lemma getopt_long_first_long_option:
  assumes "list_all NONOPTION_P pre" and "a \<noteq> []"
  shows "getopt_long os lo (getopt_init (prog # pre @ (''--'' @ a) # tail)) =
         process_long_option os lo a
           \<lparr>scanned = [''--'' @ a], nonopts = pre, unscanned = tail, nextchar = [],
            optarg = NULL\<rparr>"
proof -
  from assms(2) have "\<not> NONOPTION_P (''--'' @ a)" and "''--'' @ a \<noteq> ''--''"
    by (simp_all add: NONOPTION_P_def char_at_def)
  from getopt_long_first_option [OF assms(1) this] show ?thesis
    by (simp add: char_at_def)
qed

lemma find_long_option_longopts:
  "find_long_option longopts ''block-size'' =
     Found \<lparr>name = ''block-size'', has_arg = required_argument, val = 98\<rparr>"
  "find_long_option longopts ''fav-number'' =
     Found \<lparr>name = ''fav-number'', has_arg = required_argument, val = 33\<rparr>"
  "find_long_option longopts ''name'' =
     Found \<lparr>name = ''name'', has_arg = required_argument, val = 68\<rparr>"
  by (simp_all add: find_long_option_def longopts_def)

text \<open>A call of \<^verbatim>\<open>getopt_long\<close> at an element boundary: the non-options in front are
  passed over and the next element is read as an option, whatever was scanned before.\<close>

lemma getopt_long_at_boundary:
  assumes "nextchar d = []" and "list_all NONOPTION_P pre"
    and "\<not> NONOPTION_P t" and "t \<noteq> ''--''"
  shows "getopt_long os lo (d\<lparr>unscanned := pre @ t # tail\<rparr>) =
         (if char_at t 1 = CHR ''-''
          then process_long_option os lo (drop 2 t)
                 (d\<lparr>scanned := scanned d @ [t], nonopts := nonopts d @ pre,
                    unscanned := tail, optarg := NULL\<rparr>)
          else short_option os (char_at t 1) (drop 2 t)
                 (d\<lparr>scanned := scanned d @ [t], nonopts := nonopts d @ pre,
                    unscanned := tail, optarg := NULL\<rparr>))"
proof -
  from assms(2) have "\<forall>x\<in>set pre. NONOPTION_P x"
    by (simp add: list_all_iff)
  with assms(3) have tw: "takeWhile NONOPTION_P (pre @ t # tail) = pre"
    and dw: "dropWhile NONOPTION_P (pre @ t # tail) = t # tail"
    by (simp_all add: takeWhile_append2 dropWhile_append2)
  from assms(1,4) show ?thesis
    unfolding getopt_long_def Let_def
    by (cases d) (simp add: tw dw del: dropWhile_eq_Nil_conv)
qed

text \<open>The two spellings of a long option with its value.\<close>

lemma process_long_option_value_attached:
  assumes "nm = ''block-size'' \<or> nm = ''fav-number'' \<or> nm = ''name''"
  shows "process_long_option optstring longopts (nm @ ''='' @ x) e =
           (if nm = ''block-size'' then 98 else if nm = ''fav-number'' then 33 else 68,
            e\<lparr>optarg := Str x\<rparr>)"
  using assms
  by (auto simp: process_long_option_def find_long_option_longopts required_argument_def)

lemma process_long_option_value_next:
  assumes "nm = ''block-size'' \<or> nm = ''fav-number'' \<or> nm = ''name''"
    and "unscanned e = x # tail"
  shows "process_long_option optstring longopts nm e =
           (if nm = ''block-size'' then 98 else if nm = ''fav-number'' then 33 else 68,
            e\<lparr>scanned := scanned e @ [x], unscanned := tail, optarg := Str x\<rparr>)"
  using assms
  by (auto simp: process_long_option_def find_long_option_longopts required_argument_def)

text \<open>The help flag in either spelling, after any non-options, is reported as code 104.\<close>

lemma help_flag_reported:
  assumes "list_all NONOPTION_P pre"
  shows "104 \<in> set (options_given (prog # pre @ ''-h'' # tail))"
    and "104 \<in> set (options_given (prog # pre @ ''--help'' # tail))"
proof -
  have "\<not> NONOPTION_P ''-h''" and "''-h'' \<noteq> ''--''"
    by (simp_all add: NONOPTION_P_def char_at_def)
  from getopt_long_first_option [OF assms this, of optstring longopts prog tail]
  have "fst (getopt_long optstring longopts (getopt_init (prog # pre @ ''-h'' # tail))) = 104"
    by (simp add: char_at_def short_option_def optstring_def strchr_def)
  then show "104 \<in> set (options_given (prog # pre @ ''-h'' # tail))"
    unfolding options_given_def
    by (subst getopt_codes.simps) (simp add: split_def)
next
  have "find_long_option longopts ''help'' = Found \<lparr>name = ''help'', has_arg = 0, val = 104\<rparr>"
    by (simp add: find_long_option_def longopts_def)
  with getopt_long_first_long_option [OF assms, of "''help''" optstring longopts prog tail]
  have "fst (getopt_long optstring longopts (getopt_init (prog # pre @ ''--help'' # tail))) = 104"
    by (simp add: process_long_option_def)
  then show "104 \<in> set (options_given (prog # pre @ ''--help'' # tail))"
    unfolding options_given_def
    by (subst getopt_codes.simps) (simp add: split_def)
qed

lemma atoi_20: "atoi ''20'' = 20"
  by (simp add: atoi_def strtol_saturate_def isspace_def isdigit_def)

lemma atoi_0: "atoi ''0'' = 0"
  by (simp add: atoi_def strtol_saturate_def isspace_def isdigit_def)

section \<open>Properties of example.c\<close>

text \<open>
  C1 (as amended). After every successful parse the three value options are bound:
  \<^verbatim>\<open>block_size\<close>, \<^verbatim>\<open>fave_number\<close> and \<^verbatim>\<open>username\<close> hold a value, and an option that
  the scan did not report holds its declared default (12, \<^verbatim>\<open>0xDEADBEEF\<close>,
  \<^verbatim>\<open>"John Smith"\<close>). The flag \<^verbatim>\<open>quiet\<close> is 1 when \<^verbatim>\<open>-q\<close> or \<^verbatim>\<open>--quiet\<close> was reported
  (code 113) and otherwise holds what the caller's variable held before the call:
  \<^verbatim>\<open>parse_args\<close> does not write it.
\<close>

theorem parse_args_binds_options:
  assumes "parse_args argv v = Inr r"
  shows "block_size r \<noteq> None \<and> fave_number r \<noteq> None \<and> username r \<noteq> None
    \<and> (98 \<notin> set (options_given argv) \<longrightarrow> block_size r = Some 12)
    \<and> (33 \<notin> set (options_given argv) \<longrightarrow> fave_number r = Some 0xDEADBEEF)
    \<and> (68 \<notin> set (options_given argv) \<longrightarrow> username r = Some (Str ''John Smith''))
    \<and> quiet r = (if 113 \<in> set (options_given argv) then Some 1 else quiet v)"
proof -
  from assms have run: "parse_loop argv (getopt_init argv) v parse_locals_init = Inr r"
    by (simp add: parse_args_def)
  have bound: "block_size r \<noteq> None \<and> fave_number r \<noteq> None \<and> username r \<noteq> None
       \<and> out_file r \<noteq> None"
    by (rule parse_loop_bound [OF run]) (simp_all add: parse_locals_init_def)
  from parse_loop_defaults [OF run] bound show ?thesis
    by (simp add: options_given_def parse_locals_init_def block_size__default_def
        fave_number__default_def username__default_def)
qed

text \<open>
  An instance: \<^verbatim>\<open>-q --name Ann out.txt\<close>. The two options given are reported, the two
  others take their defaults.
\<close>

theorem parse_args_binds_options_witness:
  "parse_args [''prog'', ''-q'', ''--name'', ''Ann'', ''out.txt''] main_vars =
     Inr \<lparr>block_size = Some 12, fave_number = Some 0xDEADBEEF, quiet = Some 1,
          username = Some (Str ''Ann''), out_file = Some (Str ''out.txt''), in_file = None,
          words = None, words__size = None\<rparr>
   \<and> options_given [''prog'', ''-q'', ''--name'', ''Ann'', ''out.txt''] = [113, 68]"
proof -
  have run: "parse_args [''prog'', ''-q'', ''--name'', ''Ann'', ''out.txt''] main_vars =
     Inr \<lparr>block_size = Some 12, fave_number = Some 0xDEADBEEF, quiet = Some 1,
          username = Some (Str ''Ann''), out_file = Some (Str ''out.txt''), in_file = None,
          words = None, words__size = None\<rparr>"
    by code_simp
  have given: "options_given [''prog'', ''-q'', ''--name'', ''Ann'', ''out.txt''] = [113, 68]"
    by code_simp
  from parse_args_binds_options [OF run] run given show ?thesis
    by simp
qed

text \<open>
  C1 as stated fails: with no \<^verbatim>\<open>-q\<close>, the variable \<^verbatim>\<open>quiet\<close> of \<^verbatim>\<open>main\<close> is still
  unassigned after a successful parse; it is not bound to false. A caller's variable
  that held 1 before the call holds 1 after it.
\<close>

theorem parse_args_quiet_not_bound:
  "parse_args [''prog'', ''out.txt''] main_vars =
     Inr \<lparr>block_size = Some 12, fave_number = Some 0xDEADBEEF, quiet = None,
          username = Some (Str ''John Smith''), out_file = Some (Str ''out.txt''),
          in_file = None, words = None, words__size = None\<rparr>
   \<and> parse_args [''prog'', ''out.txt''] (main_vars\<lparr>quiet := Some 1\<rparr>) =
     Inr \<lparr>block_size = Some 12, fave_number = Some 0xDEADBEEF, quiet = Some 1,
          username = Some (Str ''John Smith''), out_file = Some (Str ''out.txt''),
          in_file = None, words = None, words__size = None\<rparr>"
  by code_simp

text \<open>
  C2 (as amended). With no argument after the program name the scan reports no option
  and leaves no operand, so \<^verbatim>\<open>parse_args\<close> goes straight to lines 69 to 97 with
  \<^verbatim>\<open>optind = 1\<close>, where the check \<^verbatim>\<open>argc - optind < 1\<close> of line 79 rejects: the usage is
  printed and the process exits with status 1, whatever the program name and whatever
  the caller's variables hold. Nothing is returned, so no result is built from
  defaults, and no null pointer is dereferenced. The outcome names neither an error
  kind nor the slot \<^verbatim>\<open>out_file\<close>.
\<close>

theorem parse_args_no_arguments:
  "options_given [prog] = [] \<and> operands [prog] = []
   \<and> parse_args [prog] v = positionals [prog] 1 (set_defaults v parse_locals_init)
   \<and> positionals [prog] 1 (set_defaults v parse_locals_init) = Inl (Usage_exit 1)
   \<and> parse_args [prog] v = Inl (Usage_exit 1)"
proof -
  have g: "getopt_long optstring longopts (getopt_init [prog]) = (- 1, getopt_init [prog])"
    by (simp add: getopt_long_def getopt_init_def)
  have codes: "options_given [prog] = []"
    by (simp add: options_given_def getopt_codes.simps [of "getopt_init [prog]"] g)
  have ge: "getopt_end (getopt_init [prog]) = getopt_init [prog]"
    by (simp add: getopt_end.simps [of "getopt_init [prog]"] g)
  have ops: "operands [prog] = []"
    unfolding operands_def ge Let_def
    by (simp add: getopt_init_def optind_def argv_permuted_def)
  have "parse_loop [prog] (getopt_init [prog]) v parse_locals_init =
        positionals (argv_permuted [prog] (getopt_init [prog])) (optind (getopt_init [prog]))
          (set_defaults v parse_locals_init)"
    by (subst parse_loop.simps) (simp add: g)
  then have run: "parse_args [prog] v = positionals [prog] 1 (set_defaults v parse_locals_init)"
    by (simp add: parse_args_def getopt_init_def optind_def argv_permuted_def)
  have rej: "positionals [prog] 1 w = Inl (Usage_exit 1)" for w
    by (simp add: positionals_def)
  from codes ops run rej show ?thesis
    by simp
qed

text \<open>
  C2 as stated fails: the outcome is not a \<^verbatim>\<open>MissingPositionalArgument\<close> for the slot
  \<^verbatim>\<open>out_file\<close>. It is the one outcome \<^verbatim>\<open>parse_args\<close> has for every rejected input, the
  same as for an unknown option given with the positional present, or for an
  option that lacks its value.
\<close>

theorem parse_args_no_arguments_no_kind:
  "parse_args [''prog''] main_vars = Inl (Usage_exit 1)
   \<and> parse_args [''prog'', ''--bogus'', ''out.txt''] main_vars = Inl (Usage_exit 1)
   \<and> parse_args [''prog'', ''--name''] main_vars = Inl (Usage_exit 1)"
  by code_simp

text \<open>
  C3 (as amended). Whenever the scan reports the help flag (code 104, \<^verbatim>\<open>'h'\<close>),
  \<^verbatim>\<open>parse_args\<close> does not return: it prints the usage and exits with status 1, so no default
  is stored and no positional is looked at. The outcome is the one of an option that
  \<^verbatim>\<open>getopt_long\<close> rejects (code 63, \<^verbatim>\<open>'?'\<close>); the two share the \<^verbatim>\<open>default\<close> branch of
  the \<^verbatim>\<open>switch\<close>.
\<close>

theorem parse_args_help_exits:
  assumes "104 \<in> set (options_given argv) \<or> 63 \<in> set (options_given argv)"
  shows "parse_args argv v = Inl (Usage_exit 1)"
  using assms parse_loop_usage [of 104 "getopt_init argv" argv v parse_locals_init]
    parse_loop_usage [of 63 "getopt_init argv" argv v parse_locals_init]
  by (auto simp: parse_args_def options_given_def)

text \<open>
  Two instances: \<^verbatim>\<open>--help\<close> after another option, and \<^verbatim>\<open>-h\<close> inside a group of
  short options that follows a positional.
\<close>

theorem parse_args_help_exits_witness:
  "options_given [''prog'', ''-q'', ''--help'', ''out.txt''] = [113, 104]
   \<and> options_given [''prog'', ''out.txt'', ''-qh'', ''in.txt''] = [113, 104]
   \<and> parse_args [''prog'', ''-q'', ''--help'', ''out.txt''] main_vars = Inl (Usage_exit 1)
   \<and> parse_args [''prog'', ''out.txt'', ''-qh'', ''in.txt''] main_vars = Inl (Usage_exit 1)"
proof -
  have a: "options_given [''prog'', ''-q'', ''--help'', ''out.txt''] = [113, 104]"
    by code_simp
  have b: "options_given [''prog'', ''out.txt'', ''-qh'', ''in.txt''] = [113, 104]"
    by code_simp
  from a have "104 \<in> set (options_given [''prog'', ''-q'', ''--help'', ''out.txt''])
      \<or> 63 \<in> set (options_given [''prog'', ''-q'', ''--help'', ''out.txt''])"
    by simp
  note x = parse_args_help_exits [OF this, of main_vars]
  from b have "104 \<in> set (options_given [''prog'', ''out.txt'', ''-qh'', ''in.txt''])
      \<or> 63 \<in> set (options_given [''prog'', ''out.txt'', ''-qh'', ''in.txt''])"
    by simp
  note y = parse_args_help_exits [OF this, of main_vars]
  from a b x y show ?thesis by simp
qed

text \<open>
  C3 as stated fails: the help flag and an unknown option give the same outcome.
\<close>

theorem parse_args_help_same_as_unknown:
  "parse_args [''prog'', ''-h''] main_vars = Inl (Usage_exit 1)
   \<and> parse_args [''prog'', ''--help''] main_vars = Inl (Usage_exit 1)
   \<and> parse_args [''prog'', ''-x''] main_vars = Inl (Usage_exit 1)"
  by code_simp

text \<open>
  C4 (as amended). The scenario \<^verbatim>\<open>-b 20 out.txt in.txt foo bar\<close> parses successfully,
  whatever the program name and whatever the caller's variables hold: \<^verbatim>\<open>block_size\<close> is
  20, \<^verbatim>\<open>fave_number\<close> and \<^verbatim>\<open>username\<close> take their defaults, \<^verbatim>\<open>out_file\<close> and \<^verbatim>\<open>in_file\<close>
  are the first two operands, \<^verbatim>\<open>words\<close> are the two that remain, in order. \<^verbatim>\<open>quiet\<close> is
  not written: it holds what the caller's variable held before the call.
\<close>

theorem parse_args_scenario:
  "parse_args [prog, ''-b'', ''20'', ''out.txt'', ''in.txt'', ''foo'', ''bar''] v =
     Inr (v\<lparr>block_size := Some 20, fave_number := Some 0xDEADBEEF,
            username := Some (Str ''John Smith''), out_file := Some (Str ''out.txt''),
            in_file := Some (Str ''in.txt''), words := Some [''foo'', ''bar''],
            words__size := Some 2\<rparr>)"
proof -
  let ?argv = "[prog, ''-b'', ''20'', ''out.txt'', ''in.txt'', ''foo'', ''bar'']"
  define d1 where "d1 = \<lparr>scanned = [''-b'', ''20''], nonopts = [],
      unscanned = [''out.txt'', ''in.txt'', ''foo'', ''bar''], nextchar = [], optarg = Str ''20''\<rparr>"
  define d2 where "d2 = \<lparr>scanned = [''-b'', ''20''],
      nonopts = [''out.txt'', ''in.txt'', ''foo'', ''bar''], unscanned = [], nextchar = [],
      optarg = NULL\<rparr>"
  have g1: "getopt_long optstring longopts (getopt_init ?argv) = (98, d1)"
    by (simp add: getopt_long_def getopt_init_def NONOPTION_P_def char_at_def short_option_def
        optstring_def strchr_def d1_def)
  have g2: "getopt_long optstring longopts d1 = (- 1, d2)"
    by (simp add: getopt_long_def NONOPTION_P_def char_at_def d1_def d2_def)
  have oa: "optarg d1 = Str ''20''"
    by (simp add: d1_def)
  show ?thesis
    unfolding parse_args_def parse_loop_step [OF g1] parse_loop_step [OF g2]
    by (simp add: oa atoi_20 set_defaults_def parse_locals_init_def positionals_def
        argv_permuted_def optind_def d2_def argv_at_def block_size__default_def
        fave_number__default_def username__default_def)
qed

text \<open>
  C4 as stated fails in one binding: \<^verbatim>\<open>quiet\<close> is not bound to unset. From
  \<^verbatim>\<open>main\<close> the variable is still unassigned after the parse, and a caller's variable that
  held 1 before the call holds 1 after it.
\<close>

theorem parse_args_scenario_quiet:
  "parse_args [''prog'', ''-b'', ''20'', ''out.txt'', ''in.txt'', ''foo'', ''bar''] main_vars =
     Inr \<lparr>block_size = Some 20, fave_number = Some 0xDEADBEEF, quiet = None,
          username = Some (Str ''John Smith''), out_file = Some (Str ''out.txt''),
          in_file = Some (Str ''in.txt''), words = Some [''foo'', ''bar''],
          words__size = Some 2\<rparr>
   \<and> parse_args [''prog'', ''-b'', ''20'', ''out.txt'', ''in.txt'', ''foo'', ''bar'']
       (main_vars\<lparr>quiet := Some 1\<rparr>) =
     Inr \<lparr>block_size = Some 20, fave_number = Some 0xDEADBEEF, quiet = Some 1,
          username = Some (Str ''John Smith''), out_file = Some (Str ''out.txt''),
          in_file = Some (Str ''in.txt''), words = Some [''foo'', ''bar''],
          words__size = Some 2\<rparr>"
  by code_simp

text \<open>
  C5 (as amended). After every successful parse there is at least one operand;
  \<^verbatim>\<open>out_file\<close> is the first, \<^verbatim>\<open>in_file\<close> the second if there is one, and when operands
  remain after these two, \<^verbatim>\<open>words\<close> is exactly the remaining ones, in order, and
  \<^verbatim>\<open>words__size\<close> their number. When none remains the parse still succeeds, and
  \<^verbatim>\<open>words\<close> and \<^verbatim>\<open>words__size\<close> hold what the caller's variables held before the call:
  the guard \<^verbatim>\<open>argc > 0\<close> of line 94 skips the two assignments.
\<close>

theorem parse_args_words:
  assumes "parse_args argv v = Inr r"
  shows "operands argv \<noteq> []
    \<and> out_file r = Some (Str (hd (operands argv)))
    \<and> in_file r = (if 1 < length (operands argv) then Some (Str (operands argv ! 1)) else in_file v)
    \<and> words r = (if 2 < length (operands argv) then Some (drop 2 (operands argv)) else words v)
    \<and> words__size r = (if 2 < length (operands argv) then Some (length (operands argv) - 2)
                        else words__size v)"
proof -
  from assms have run: "parse_loop argv (getopt_init argv) v parse_locals_init = Inr r"
    by (simp add: parse_args_def)
  define e where "e = getopt_end (getopt_init argv)"
  from parse_loop_positionals [OF run] obtain v' where
    p: "positionals (argv_permuted argv e) (optind e) v' = Inr r"
    and same: "in_file v' = in_file v" "words v' = words v" "words__size v' = words__size v"
    unfolding e_def by blast
  have ops: "operands argv = drop (optind e) (argv_permuted argv e)"
    by (simp add: operands_def e_def Let_def)
  from p have len: "optind e < length (argv_permuted argv e)"
    by (auto simp: positionals_def Let_def split: if_splits)
  then have ne: "operands argv \<noteq> []"
    by (simp add: ops)
  then obtain a as where cons: "operands argv = a # as"
    by (cases "operands argv") auto
  have argc: "int (length (argv_permuted argv e)) - int (optind e) = int (length (operands argv))"
    using len by (simp add: ops)
  from p same cons show ?thesis
    unfolding positionals_def Let_def argc ops [symmetric]
    by (cases as; cases "tl as") (auto simp: argv_at_def split: if_splits)
qed

text \<open>
  An instance with two operands left for \<^verbatim>\<open>words\<close>.
\<close>

theorem parse_args_words_witness:
  "parse_args [''prog'', ''-q'', ''out.txt'', ''in.txt'', ''foo'', ''bar''] main_vars =
     Inr \<lparr>block_size = Some 12, fave_number = Some 0xDEADBEEF, quiet = Some 1,
          username = Some (Str ''John Smith''), out_file = Some (Str ''out.txt''),
          in_file = Some (Str ''in.txt''), words = Some [''foo'', ''bar''],
          words__size = Some 2\<rparr>
   \<and> operands [''prog'', ''-q'', ''out.txt'', ''in.txt'', ''foo'', ''bar''] =
       [''out.txt'', ''in.txt'', ''foo'', ''bar'']"
proof -
  have run: "parse_args [''prog'', ''-q'', ''out.txt'', ''in.txt'', ''foo'', ''bar''] main_vars =
     Inr \<lparr>block_size = Some 12, fave_number = Some 0xDEADBEEF, quiet = Some 1,
          username = Some (Str ''John Smith''), out_file = Some (Str ''out.txt''),
          in_file = Some (Str ''in.txt''), words = Some [''foo'', ''bar''],
          words__size = Some 2\<rparr>"
    by code_simp
  have ops: "operands [''prog'', ''-q'', ''out.txt'', ''in.txt'', ''foo'', ''bar''] =
       [''out.txt'', ''in.txt'', ''foo'', ''bar'']"
    by code_simp
  from parse_args_words [OF run] run ops show ?thesis
    by simp
qed

text \<open>
  C5 as stated fails: when no operand is left after \<^verbatim>\<open>out_file\<close> and \<^verbatim>\<open>in_file\<close>, the
  variables \<^verbatim>\<open>words\<close> and \<^verbatim>\<open>words__size\<close> of \<^verbatim>\<open>main\<close> are still unassigned after the
  parse; \<^verbatim>\<open>words__size\<close> is not 0. Variables that held one word before the call hold
  it after the call.
\<close>

theorem parse_args_words_not_bound:
  "parse_args [''prog'', ''out.txt'', ''in.txt''] main_vars =
     Inr \<lparr>block_size = Some 12, fave_number = Some 0xDEADBEEF, quiet = None,
          username = Some (Str ''John Smith''), out_file = Some (Str ''out.txt''),
          in_file = Some (Str ''in.txt''), words = None, words__size = None\<rparr>
   \<and> parse_args [''prog'', ''out.txt'', ''in.txt'']
       (main_vars\<lparr>words := Some [''old''], words__size := Some 1\<rparr>) =
     Inr \<lparr>block_size = Some 12, fave_number = Some 0xDEADBEEF, quiet = None,
          username = Some (Str ''John Smith''), out_file = Some (Str ''out.txt''),
          in_file = Some (Str ''in.txt''), words = Some [''old''], words__size = Some 1\<rparr>"
  by code_simp

text \<open>
  C6. For each of the three options that take a value, \<^verbatim>\<open>--name=x\<close> and
  \<^verbatim>\<open>--name x\<close> give the same outcome, wherever the option stands as an option: from
  every state \<open>d\<close> of the scan at an element boundary, whatever was scanned before,
  with the option as the next element after any non-options, the loop of \<^verbatim>\<open>parse_args\<close>
  returns the same for the two spellings, for every value \<open>x\<close>, every tail, every
  content of the caller's variables and of the locals (the two vectors have the same
  program name). In particular \<^verbatim>\<open>parse_args\<close> returns the same for the two vectors
  when only non-options stand in front. (An element that follows an option still
  waiting for its value is that option's value, not an option.)
\<close>

theorem parse_args_long_equals_value:
  assumes "nm = ''block-size'' \<or> nm = ''fav-number'' \<or> nm = ''name''"
    and "list_all NONOPTION_P pre"
    and "nextchar d = []"
    and "take 1 argv1 = take 1 argv2"
  shows "parse_loop argv1 (d\<lparr>unscanned := pre @ (''--'' @ nm @ ''='' @ x) # tail\<rparr>) v l =
         parse_loop argv2 (d\<lparr>unscanned := pre @ (''--'' @ nm) # x # tail\<rparr>) v l
       \<and> parse_args (prog # pre @ (''--'' @ nm @ ''='' @ x) # tail) v =
         parse_args (prog # pre @ (''--'' @ nm) # x # tail) v"
proof -
  have loop: "parse_loop a1 (e\<lparr>unscanned := pre @ (''--'' @ nm @ ''='' @ x) # tail\<rparr>) w k =
         parse_loop a2 (e\<lparr>unscanned := pre @ (''--'' @ nm) # x # tail\<rparr>) w k"
    if e: "nextchar e = []" and a: "take 1 a1 = take 1 a2" for e a1 a2 w k
  proof -
    define c :: int where
      "c = (if nm = ''block-size'' then 98 else if nm = ''fav-number'' then 33 else 68)"
    define dA where "dA = e\<lparr>scanned := scanned e @ [''--'' @ nm @ ''='' @ x],
        nonopts := nonopts e @ pre, unscanned := tail, optarg := Str x\<rparr>"
    define dB where "dB = e\<lparr>scanned := scanned e @ [''--'' @ nm, x],
        nonopts := nonopts e @ pre, unscanned := tail, optarg := Str x\<rparr>"
    from assms(1) have no: "\<not> NONOPTION_P (''--'' @ nm @ ''='' @ x)" "\<not> NONOPTION_P (''--'' @ nm)"
      and ne: "''--'' @ nm @ ''='' @ x \<noteq> ''--''" "''--'' @ nm \<noteq> ''--''"
      by (auto simp: NONOPTION_P_def char_at_def)
    have tk: "char_at (''--'' @ nm @ ''='' @ x) 1 = CHR ''-''" "char_at (''--'' @ nm) 1 = CHR ''-''"
      "drop 2 (''--'' @ nm @ ''='' @ x) = nm @ ''='' @ x" "drop 2 (''--'' @ nm) = nm"
      using assms(1) by (auto simp: char_at_def)
    have un: "unscanned (e\<lparr>scanned := scanned e @ [''--'' @ nm], nonopts := nonopts e @ pre,
        unscanned := x # tail, optarg := NULL\<rparr>) = x # tail"
      by simp
    have ga: "getopt_long optstring longopts (e\<lparr>unscanned := pre @ (''--'' @ nm @ ''='' @ x) # tail\<rparr>)
              = (c, dA)"
      unfolding getopt_long_at_boundary [OF e assms(2) no(1) ne(1)] tk if_True
        process_long_option_value_attached [OF assms(1)]
      by (simp add: c_def dA_def)
    have gb: "getopt_long optstring longopts (e\<lparr>unscanned := pre @ (''--'' @ nm) # x # tail\<rparr>)
              = (c, dB)"
      unfolding getopt_long_at_boundary [OF e assms(2) no(2) ne(2)] tk if_True
        process_long_option_value_next [OF assms(1) un]
      by (simp add: c_def dB_def)
    have st: "dA\<lparr>scanned := []\<rparr> = dB\<lparr>scanned := []\<rparr>"
      by (simp add: dA_def dB_def)
    have same: "parse_loop a1 dA v' l' = parse_loop a2 dB v' l'" for v' l'
      by (rule parse_loop_scanned [OF st a])
    have pos: "positionals (argv_permuted a1 dA) (optind dA) v' =
               positionals (argv_permuted a2 dB) (optind dB) v'" for v'
      by (rule positionals_scanned [OF st a])
    have oa: "optarg dA = Str x" "optarg dB = Str x"
      by (simp_all add: dA_def dB_def)
    show ?thesis
      unfolding parse_loop_step [OF ga] parse_loop_step [OF gb]
      by (simp only: same pos oa)
  qed
  let ?A = "prog # pre @ (''--'' @ nm @ ''='' @ x) # tail"
  let ?B = "prog # pre @ (''--'' @ nm) # x # tail"
  have ia: "getopt_init ?A = (getopt_init [prog])\<lparr>unscanned := pre @ (''--'' @ nm @ ''='' @ x) # tail\<rparr>"
    and ib: "getopt_init ?B = (getopt_init [prog])\<lparr>unscanned := pre @ (''--'' @ nm) # x # tail\<rparr>"
    by (simp_all add: getopt_init_def)
  have "parse_args ?A v' = parse_args ?B v'" for v'
    unfolding parse_args_def ia ib
  proof -
    have e: "nextchar (getopt_init [prog]) = []" by (simp add: getopt_init_def)
    have a: "take 1 ?A = take 1 ?B" by simp
    have pre': "list_all NONOPTION_P pre" by (rule assms(2))
    show "parse_loop ?A ((getopt_init [prog])\<lparr>unscanned := pre @ (''--'' @ nm @ ''='' @ x) # tail\<rparr>)
            v' parse_locals_init =
          parse_loop ?B ((getopt_init [prog])\<lparr>unscanned := pre @ (''--'' @ nm) # x # tail\<rparr>)
            v' parse_locals_init"
      by (rule loop [OF e a])
  qed
  with loop [OF assms(3,4)] show ?thesis by simp
qed

text \<open>
  An instance with an option in front: after \<^verbatim>\<open>-q\<close> the scan is at an element
  boundary, and \<^verbatim>\<open>--block-size=20\<close> and \<^verbatim>\<open>--block-size 20\<close> give the same result of
  \<^verbatim>\<open>parse_args\<close>.
\<close>

theorem parse_args_long_equals_value_witness:
  "parse_args [''prog'', ''-q'', ''--block-size=20'', ''out.txt''] main_vars =
   parse_args [''prog'', ''-q'', ''--block-size'', ''20'', ''out.txt''] main_vars
   \<and> parse_args [''prog'', ''-q'', ''--block-size'', ''20'', ''out.txt''] main_vars =
     Inr \<lparr>block_size = Some 20, fave_number = Some 0xDEADBEEF, quiet = Some 1,
          username = Some (Str ''John Smith''), out_file = Some (Str ''out.txt''),
          in_file = None, words = None, words__size = None\<rparr>"
proof -
  define dq where "dq = \<lparr>scanned = [''-q''], nonopts = [], unscanned = [], nextchar = [],
      optarg = NULL\<rparr>"
  let ?A = "[''prog'', ''-q'', ''--block-size=20'', ''out.txt'']"
  let ?B = "[''prog'', ''-q'', ''--block-size'', ''20'', ''out.txt'']"
  have ga: "getopt_long optstring longopts (getopt_init ?A) =
      (113, dq\<lparr>unscanned := [] @ (''--'' @ ''block-size'' @ ''='' @ ''20'') # [''out.txt'']\<rparr>)"
    by (simp add: getopt_long_def getopt_init_def NONOPTION_P_def char_at_def short_option_def
        optstring_def strchr_def dq_def)
  have gb: "getopt_long optstring longopts (getopt_init ?B) =
      (113, dq\<lparr>unscanned := [] @ (''--'' @ ''block-size'') # ''20'' # [''out.txt'']\<rparr>)"
    by (simp add: getopt_long_def getopt_init_def NONOPTION_P_def char_at_def short_option_def
        optstring_def strchr_def dq_def)
  have nm: "''block-size'' = ''block-size'' \<or> ''block-size'' = ''fav-number''
      \<or> ''block-size'' = ''name''"
    by simp
  have pre: "list_all NONOPTION_P []"
    by simp
  have bd: "nextchar dq = []"
    by (simp add: dq_def)
  have pn: "take 1 ?A = take 1 ?B"
    by simp
  note eq = parse_args_long_equals_value [OF nm pre bd pn, where x = "''20''"
      and tail = "[''out.txt'']" and v = "main_vars\<lparr>quiet := Some 1\<rparr>"
      and l = parse_locals_init, THEN conjunct1]
  have "parse_args ?A main_vars = parse_args ?B main_vars"
    unfolding parse_args_def parse_loop_step [OF ga] parse_loop_step [OF gb]
    using eq by simp
  moreover have "parse_args ?B main_vars =
     Inr \<lparr>block_size = Some 20, fave_number = Some 0xDEADBEEF, quiet = Some 1,
          username = Some (Str ''John Smith''), out_file = Some (Str ''out.txt''),
          in_file = None, words = None, words__size = None\<rparr>"
    by code_simp
  ultimately show ?thesis
    by simp
qed

text \<open>
  C7 (the claim fails on the code). The usage text announces \<^verbatim>\<open>--blocksize\<close> and
  \<^verbatim>\<open>--bs\<close> as aliases of \<^verbatim>\<open>--block-size\<close>, but the table \<^verbatim>\<open>longopts\<close> has no entry for
  them: \<^verbatim>\<open>getopt_long\<close> rejects both and \<^verbatim>\<open>parse_args\<close> exits with the usage, where
  \<^verbatim>\<open>--block-size\<close> binds the value.
\<close>

theorem parse_args_aliases_rejected:
  "parse_args [''prog'', ''--bs'', ''20'', ''out.txt''] main_vars = Inl (Usage_exit 1)
   \<and> parse_args [''prog'', ''--blocksize'', ''20'', ''out.txt''] main_vars = Inl (Usage_exit 1)
   \<and> parse_args [''prog'', ''--block-size'', ''20'', ''out.txt''] main_vars =
     Inr \<lparr>block_size = Some 20, fave_number = Some 0xDEADBEEF, quiet = None,
          username = Some (Str ''John Smith''), out_file = Some (Str ''out.txt''),
          in_file = None, words = None, words__size = None\<rparr>"
  by code_simp

text \<open>
  C8. When the scan does not report \<^verbatim>\<open>--fav-number\<close> (code 33), a successful parse
  leaves \<^verbatim>\<open>fave_number\<close> at its default \<^verbatim>\<open>0xDEADBEEF\<close>. The same arguments with
  \<^verbatim>\<open>--fav-number 0\<close> in front parse to the same result except that \<^verbatim>\<open>fave_number\<close> is 0,
  so the two results differ.
\<close>

theorem parse_args_fav_number_default:
  assumes "parse_args (prog # args) v = Inr r"
    and "33 \<notin> set (options_given (prog # args))"
  shows "fave_number r = Some 0xDEADBEEF
    \<and> parse_args (prog # ''--fav-number'' # ''0'' # args) v = Inr (r\<lparr>fave_number := Some 0\<rparr>)
    \<and> r\<lparr>fave_number := Some 0\<rparr> \<noteq> r"
proof -
  let ?A = "prog # args"
  let ?B = "prog # ''--fav-number'' # ''0'' # args"
  define dB where "dB = \<lparr>scanned = [''--fav-number'', ''0''], nonopts = [], unscanned = args,
      nextchar = [], optarg = Str ''0''\<rparr>"
  from assms(1) have run: "parse_loop ?A (getopt_init ?A) v parse_locals_init = Inr r"
    by (simp add: parse_args_def)
  from assms(2) have no: "33 \<notin> set (getopt_codes (getopt_init ?A))"
    by (simp add: options_given_def)
  from parse_loop_defaults [OF run] no have dflt: "fave_number r = Some 0xDEADBEEF"
    by (simp add: parse_locals_init_def fave_number__default_def)
  have "getopt_long optstring longopts (getopt_init (prog # [] @ (''--'' @ ''fav-number'') # ''0'' # args))
        = (33, dB)"
    by (subst getopt_long_first_long_option)
      (simp_all add: process_long_option_def find_long_option_longopts required_argument_def dB_def)
  then have g: "getopt_long optstring longopts (getopt_init ?B) = (33, dB)"
    by simp
  have oa: "optarg dB = Str ''0''"
    by (simp add: dB_def)
  have "parse_loop ?B dB v' l' = parse_loop ?B (dB\<lparr>optarg := NULL\<rparr>) v' l'" for v' l'
    by (simp add: parse_loop_optarg_reset)
  also have "parse_loop ?B (dB\<lparr>optarg := NULL\<rparr>) v' l' = parse_loop ?A (getopt_init ?A) v' l'" for v' l'
    by (rule parse_loop_scanned) (simp_all add: dB_def getopt_init_def)
  finally have same: "parse_loop ?B dB v' l' = parse_loop ?A (getopt_init ?A) v' l'" for v' l' .
  have given: "parse_loop ?A (getopt_init ?A) (v\<lparr>fave_number := Some 0\<rparr>)
                 (parse_locals_init\<lparr>fave_number__isset := 1\<rparr>) = Inr (r\<lparr>fave_number := Some 0\<rparr>)"
    by (rule parse_loop_fave_number_given [OF run no]) simp_all
  have "parse_args ?B v = Inr (r\<lparr>fave_number := Some 0\<rparr>)"
    unfolding parse_args_def parse_loop_step [OF g]
    by (simp add: oa same atoi_0 given)
  moreover from dflt have "r\<lparr>fave_number := Some 0\<rparr> \<noteq> r"
    by (cases r) simp
  ultimately show ?thesis
    using dflt by simp
qed

text \<open>
  An instance: \<^verbatim>\<open>-q out.txt\<close>, without and with \<^verbatim>\<open>--fav-number 0\<close>.
\<close>

theorem parse_args_fav_number_default_witness:
  "parse_args [''prog'', ''-q'', ''out.txt''] main_vars =
     Inr \<lparr>block_size = Some 12, fave_number = Some 0xDEADBEEF, quiet = Some 1,
          username = Some (Str ''John Smith''), out_file = Some (Str ''out.txt''),
          in_file = None, words = None, words__size = None\<rparr>
   \<and> options_given [''prog'', ''-q'', ''out.txt''] = [113]
   \<and> parse_args [''prog'', ''--fav-number'', ''0'', ''-q'', ''out.txt''] main_vars =
     Inr \<lparr>block_size = Some 12, fave_number = Some 0, quiet = Some 1,
          username = Some (Str ''John Smith''), out_file = Some (Str ''out.txt''),
          in_file = None, words = None, words__size = None\<rparr>"
proof -
  have run: "parse_args (''prog'' # [''-q'', ''out.txt'']) main_vars =
     Inr \<lparr>block_size = Some 12, fave_number = Some 0xDEADBEEF, quiet = Some 1,
          username = Some (Str ''John Smith''), out_file = Some (Str ''out.txt''),
          in_file = None, words = None, words__size = None\<rparr>"
    by code_simp
  have given: "options_given (''prog'' # [''-q'', ''out.txt'']) = [113]"
    by code_simp
  then have no: "33 \<notin> set (options_given (''prog'' # [''-q'', ''out.txt'']))"
    by simp
  from parse_args_fav_number_default [OF run no] run given show ?thesis
    by simp
qed

section \<open>Properties of simple\_gen.c\<close>

lemma atoi_2: "atoi ''2'' = 2"
  by (simp add: atoi_def strtol_saturate_def isspace_def isdigit_def)

lemma atoi_4: "atoi ''4'' = 4"
  by (simp add: atoi_def strtol_saturate_def isspace_def isdigit_def)

text \<open>
  C9 (the claim fails on the code). When \<^verbatim>\<open>--int_arg\<close> is the last token, at index
  \<open>argc - 1\<close>, \<^verbatim>\<open>populate_args\<close> reads \<^verbatim>\<open>argv[argc]\<close>, an index that is not below
  \<^verbatim>\<open>argc\<close>; the element is \<^verbatim>\<open>NULL\<close> and \<^verbatim>\<open>atoi\<close> dereferences it. The same
  happens for \<^verbatim>\<open>--char_arg\<close>.
\<close>

theorem populate_args_reads_argv_argc:
  "populate_args simple_main_vars [''a.out'', ''--int_arg''] = Inl (Null_argv 2)
   \<and> populate_args simple_main_vars [''a.out'', ''--char_arg''] = Inl (Null_argv 2)"
  by (simp add: populate_args_def argv_at_def)

text \<open>
  C10 (the claim fails on the code). The value token after \<^verbatim>\<open>--int_arg\<close> is visited
  again by the next iteration and, being no option name, is stored in \<^verbatim>\<open>np_arg\<close>:
  the positional 4 given first is overwritten by the option's value 2.
\<close>

theorem populate_args_value_overwrites_np_arg:
  "populate_args simple_main_vars [''a.out'', ''4''] =
     Inr \<lparr>int_arg = None, char_arg = None, np_arg = Some 4\<rparr>
   \<and> populate_args simple_main_vars [''a.out'', ''4'', ''--int_arg'', ''2''] =
     Inr \<lparr>int_arg = Some 2, char_arg = None, np_arg = Some 2\<rparr>"
  by (simp add: populate_args_def argv_at_def simple_main_vars_def atoi_2 atoi_4)

end
